theory Spec2Isabelle
  imports Main "HOL-Library.Word" "HOL-Library.Multiset"
begin

unbundle bit_operations_syntax

section \<open>Data model\<close>

text \<open>
  Python objects have identity: a \<open>Node\<close> is referred to from the ring's list and from the
  finger tables of other nodes (and of itself), so nodes live in a store and are named by
  their address. Every reference of a running Python program denotes an object, hence the
  store is a total function.
\<close>

type_synonym addr = nat

text \<open>
  A finger-table slot that is present in the dictionary holds either \<open>None\<close> (falsy) or a
  reference to a \<open>Node\<close> (an object without \<open>__bool__\<close> or \<open>__len__\<close>, hence truthy).
\<close>

datatype slot = PyNone | NodeRef addr

text \<open>
  \<open>class Node\<close>: \<open>identifier\<close>, the dictionary \<open>data\<close> and the dictionary \<open>finger_table\<close>,
  whose keys are the levels that \<open>range(160, 0, -1)\<close> produces.
\<close>

record node =
  "identifier" :: int
  data :: "int \<rightharpoonup> string"
  finger_table :: "nat \<rightharpoonup> slot"

type_synonym heap = "addr \<Rightarrow> node"

text \<open>The exceptions the methods can raise; \<open>KeyError\<close> carries the missing key.\<close>

datatype error = KeyError nat | ZeroDivisionError | IndexError | UnicodeEncodeError

text \<open>\<open>Node.__init__\<close>\<close>

definition Node_init :: "int \<Rightarrow> node" where
  "Node_init ident = \<lparr>identifier = ident, data = Map.empty, finger_table = Map.empty\<rparr>"

section \<open>Circular ranges\<close>

text \<open>\<open>Node.in_range\<close>; the chained comparison \<open>start < target <= end\<close> is a conjunction.\<close>

definition in_range :: "int \<Rightarrow> int \<Rightarrow> int \<Rightarrow> bool" where
  "in_range target start end' =
     (if start \<le> end' then start < target \<and> target \<le> end'
      else start < target \<or> target \<le> end')"

section \<open>Decentralised lookup\<close>

text \<open>
  The loop of \<open>Node.closest_preceding_node\<close>: \<open>for i in range(160, 0, -1)\<close> visits the
  levels \<open>160, 159, ..., 1\<close>; \<open>scan_fingers h self key n\<close> is the rest of the loop from
  level \<open>n\<close> downwards. Reading \<open>self.finger_table[i]\<close> raises \<open>KeyError\<close> when the level is
  not a key of the dictionary; a falsy slot makes the condition false without evaluating
  \<open>in_range\<close>; after the loop the node itself is returned.
\<close>

fun scan_fingers :: "heap \<Rightarrow> addr \<Rightarrow> int \<Rightarrow> nat \<Rightarrow> error + addr" where
  "scan_fingers h self key 0 = Inr self"
| "scan_fingers h self key (Suc i) =
     (case finger_table (h self) (Suc i) of
        None \<Rightarrow> Inl (KeyError (Suc i))
      | Some PyNone \<Rightarrow> scan_fingers h self key i
      | Some (NodeRef f) \<Rightarrow>
          if in_range (identifier (h f)) (identifier (h self)) key then Inr f
          else scan_fingers h self key i)"

definition closest_preceding_node :: "heap \<Rightarrow> addr \<Rightarrow> int \<Rightarrow> error + addr" where
  "closest_preceding_node h self key = scan_fingers h self key 160"

text \<open>
  \<open>Node.find_successor\<close> calls itself on the node that \<open>closest_preceding_node\<close> returns,
  with nothing that bounds the number of calls: the result is \<open>None\<close> when the recursion
  does not end, \<open>Some (Inl e)\<close> when an exception escapes and \<open>Some (Inr n)\<close> when node
  \<open>n\<close> is returned.
\<close>

partial_function (option) find_successor :: "heap \<Rightarrow> addr \<Rightarrow> int \<Rightarrow> (error + addr) option" where
  "find_successor h self key =
     (if data (h self) key \<noteq> None then Some (Inr self)
      else case closest_preceding_node h self key of
             Inl e \<Rightarrow> Some (Inl e)
           | Inr successor \<Rightarrow> find_successor h successor key)"

section \<open>The ring\<close>

text \<open>
  \<open>class ChordRing\<close>: the list \<open>nodes\<close> of references to nodes. The lock is taken and
  released inside each method (\<open>with self.lock\<close>); in a sequential execution it is free
  at every call, so it is not part of the state.
\<close>

record ChordRing =
  nodes :: "addr list"

definition ChordRing_init :: ChordRing where
  "ChordRing_init = \<lparr>nodes = []\<rparr>"

text \<open>
  \<open>ChordRing.add_node\<close>: append, then \<open>list.sort\<close> with the identifier as key. Python's sort
  is stable, and so is \<open>sort_key\<close>.
\<close>

definition add_node :: "heap \<Rightarrow> ChordRing \<Rightarrow> addr \<Rightarrow> ChordRing" where
  "add_node h self n = self\<lparr>nodes := sort_key (\<lambda>x. identifier (h x)) (nodes self @ [n])\<rparr>"

text \<open>A sequence of \<open>add_node\<close> calls on a ring, in the order of the list.\<close>

definition add_nodes :: "heap \<Rightarrow> ChordRing \<Rightarrow> addr list \<Rightarrow> ChordRing" where
  "add_nodes h r ns = foldl (add_node h) r ns"

text \<open>
  A Python \<open>str\<close> is a sequence of code points, and \<open>key.encode()\<close> is the strict UTF-8
  encoder: one to four bytes per code point, and \<open>UnicodeEncodeError\<close> on a surrogate code
  point (\<open>U+D800\<close> to \<open>U+DFFF\<close>). A \<open>str\<close> holds code points below \<open>0x110000\<close> only; on
  larger numbers, which no \<open>str\<close> holds, \<open>utf8\<close> follows the four-byte pattern.
\<close>

type_synonym pystr = "nat list"

type_synonym byte = "8 word"

definition is_surrogate :: "nat \<Rightarrow> bool" where
  "is_surrogate c = (0xD800 \<le> c \<and> c \<le> 0xDFFF)"

definition utf8 :: "nat \<Rightarrow> byte list" where
  "utf8 c =
     (if c < 0x80 then [of_nat c]
      else if c < 0x800 then [of_nat (0xC0 + c div 64), of_nat (0x80 + c mod 64)]
      else if c < 0x10000 then
        [of_nat (0xE0 + c div 4096), of_nat (0x80 + c div 64 mod 64), of_nat (0x80 + c mod 64)]
      else
        [of_nat (0xF0 + c div 262144), of_nat (0x80 + c div 4096 mod 64),
         of_nat (0x80 + c div 64 mod 64), of_nat (0x80 + c mod 64)])"

fun encode :: "pystr \<Rightarrow> error + byte list" where
  "encode [] = Inr []"
| "encode (c # cs) =
     (if is_surrogate c then Inl UnicodeEncodeError
      else case encode cs of Inl e \<Rightarrow> Inl e | Inr bs \<Rightarrow> Inr (utf8 c @ bs))"

text \<open>
  \<open>ChordRing.hash_key\<close>: \<open>int(hashlib.sha1(key.encode()).hexdigest(), 16)\<close>. The digest
  function of \<open>hashlib\<close> is a parameter \<open>sha1\<close> from bytes to bytes (a SHA-1 digest has 20
  bytes); reading the hexadecimal digest in base 16 is reading the digest bytes as a
  big-endian unsigned number. An exception of \<open>encode\<close> leaves the method.
\<close>

definition int_from_digest :: "byte list \<Rightarrow> int" where
  "int_from_digest bs = foldl (\<lambda>acc b. acc * 256 + uint b) 0 bs"

definition hash_key :: "(byte list \<Rightarrow> byte list) \<Rightarrow> pystr \<Rightarrow> error + int" where
  "hash_key sha1 key =
     (case encode key of Inl e \<Rightarrow> Inl e | Inr bs \<Rightarrow> Inr (int_from_digest (sha1 bs)))"

text \<open>
  \<open>bisect.bisect_left(a, x)\<close> with its defaults \<open>lo = 0\<close>, \<open>hi = len(a)\<close>: the binary search
  of the standard library, which reads \<open>a[mid]\<close> only for \<open>lo \<le> mid < hi\<close>.
\<close>

function bisect_left_loop :: "int list \<Rightarrow> int \<Rightarrow> nat \<Rightarrow> nat \<Rightarrow> nat" where
  "bisect_left_loop a x lo hi =
     (if lo < hi then
        (let mid = (lo + hi) div 2
         in if a ! mid < x then bisect_left_loop a x (mid + 1) hi
            else bisect_left_loop a x lo mid)
      else lo)"
  by pat_completeness auto
termination
  by (relation "measure (\<lambda>(a, x, lo, hi). hi - lo)") auto

definition bisect_left :: "int list \<Rightarrow> int \<Rightarrow> nat" where
  "bisect_left a x = bisect_left_loop a x 0 (length a)"

text \<open>Reading \<open>xs[i]\<close> for an index \<open>i \<ge> 0\<close>: \<open>IndexError\<close> when \<open>i\<close> is not below the length.\<close>

definition getitem :: "'a list \<Rightarrow> nat \<Rightarrow> error + 'a" where
  "getitem xs i = (if i < length xs then Inr (xs ! i) else Inl IndexError)"

text \<open>
  \<open>ChordRing.find_node\<close>: the key is hashed first, and an exception of \<open>hash_key\<close> leaves the
  method before the membership is read. Then the identifiers are listed, \<open>bisect_left\<close> is
  taken modulo \<open>len(self.nodes)\<close>, which raises \<open>ZeroDivisionError\<close> on the empty list, and
  the node at that index is returned. The method assigns nothing to the ring.
\<close>

definition find_node ::
  "(byte list \<Rightarrow> byte list) \<Rightarrow> heap \<Rightarrow> ChordRing \<Rightarrow> pystr \<Rightarrow> error + addr" where
  "find_node sha1 h self key =
     (case hash_key sha1 key of
        Inl e \<Rightarrow> Inl e
      | Inr hashed_key \<Rightarrow>
          (let b = bisect_left (map (\<lambda>n. identifier (h n)) (nodes self)) hashed_key
           in if length (nodes self) = 0 then Inl ZeroDivisionError
              else getitem (nodes self) (b mod length (nodes self))))"

section \<open>Example stores\<close>

text \<open>
  \<open>single_heap\<close>: a ring of one node whose fingers all refer to itself. \<open>fresh_heap\<close>: nodes as
  \<open>Node.__init__\<close> leaves them. \<open>none_heap\<close>: every slot holds \<open>None\<close>. \<open>gap_heap\<close>: level 100
  is missing from the finger table of node 0. \<open>ring3_heap\<close>: three nodes with the identifiers
  10, 60 and 180 and fully populated finger tables.
\<close>

definition single_heap :: heap where
  "single_heap = (\<lambda>a. \<lparr>identifier = 10, data = Map.empty, finger_table = (\<lambda>i. Some (NodeRef 0))\<rparr>)"

definition fresh_heap :: heap where
  "fresh_heap = (\<lambda>a. Node_init 10)"

definition none_heap :: heap where
  "none_heap = (\<lambda>a. \<lparr>identifier = 10, data = Map.empty, finger_table = (\<lambda>i. Some PyNone)\<rparr>)"

definition gap_heap :: heap where
  "gap_heap = (\<lambda>a.
     if a = 0 then \<lparr>identifier = 10, data = Map.empty,
                     finger_table = (\<lambda>i. if i = 100 then None
                                          else if 130 < i then Some (NodeRef 0)
                                          else if 100 < i then Some PyNone
                                          else Some (NodeRef 1))\<rparr>
     else Node_init 60)"

definition ring3_heap :: heap where
  "ring3_heap = (\<lambda>a.
     if a = 0 then \<lparr>identifier = 10, data = Map.empty,
                     finger_table = (\<lambda>i. Some (NodeRef (if i \<le> 6 then 1 else if i \<le> 8 then 2 else 0)))\<rparr>
     else if a = 1 then \<lparr>identifier = 60, data = Map.empty,
                     finger_table = (\<lambda>i. Some (NodeRef (if i \<le> 7 then 2 else 0)))\<rparr>
     else \<lparr>identifier = 180, data = [70 \<mapsto> ''v''],
                     finger_table = (\<lambda>i. Some (NodeRef (if i \<le> 7 then 0 else 1)))\<rparr>)"

text \<open>
  \<open>echo_digest\<close> stands in for the digest function in the examples: the digest is the message
  itself, so that the one-character key \<open>F\<close> hashes to 70. \<open>str_of\<close> is the \<open>str\<close> whose code
  points are the character codes of a literal.
\<close>

definition str_of :: "string \<Rightarrow> pystr" where
  "str_of s = map of_char s"

definition echo_digest :: "byte list \<Rightarrow> byte list" where
  "echo_digest bs = bs"

section \<open>Properties of \<open>in_range\<close>\<close>

text \<open>
  C5 (as stated): for all \<open>start\<close> and \<open>end\<close>, \<open>in_range(end, start, end)\<close> is true.
  This fails where \<open>start = end\<close>: the strict comparison \<open>start < target\<close> excludes it.
\<close>

theorem in_range_end_counterexample: "\<not> in_range 5 5 5"
  by (simp add: in_range_def)

text \<open>
  C5 (amended): for all \<open>start \<noteq> end\<close>, \<open>in_range(end, start, end)\<close> is true, and for all
  \<open>start\<close> and \<open>end\<close>, \<open>in_range(start, start, end)\<close> is false; both in the wrapping and
  the non-wrapping case.
\<close>

theorem in_range_boundary:
  "(start \<noteq> end' \<longrightarrow> in_range end' start end') \<and> \<not> in_range start start end'"
  by (auto simp: in_range_def)

theorem in_range_boundary_witness:
  "(3::int) \<noteq> 7 \<and> in_range 7 3 7 \<and> \<not> in_range 3 3 7 \<and>
   (200::int) \<noteq> 10 \<and> in_range 10 200 10 \<and> \<not> in_range 200 200 10"
  using in_range_boundary [of 3 7] in_range_boundary [of 200 10] by simp

text \<open>
  C6: when \<open>start \<le> end\<close>, \<open>in_range(target, start, end)\<close> is true iff
  \<open>start < target \<le> end\<close>; when \<open>start > end\<close>, it is true iff \<open>target > start\<close> or
  \<open>target \<le> end\<close>.
\<close>

theorem in_range_cases:
  "(start \<le> end' \<longrightarrow> (in_range target start end' \<longleftrightarrow> start < target \<and> target \<le> end')) \<and>
   (start > end' \<longrightarrow> (in_range target start end' \<longleftrightarrow> target > start \<or> target \<le> end'))"
  by (simp add: in_range_def)

theorem in_range_cases_witness:
  "(10::int) \<le> 60 \<and> in_range 60 10 60 \<and> \<not> in_range 70 10 60 \<and> \<not> in_range 10 10 60 \<and>
   (180::int) > 10 \<and> in_range 5 180 10 \<and> in_range 200 180 10 \<and> \<not> in_range 70 180 10"
  using in_range_cases [of 10 60 60] in_range_cases [of 10 60 70] in_range_cases [of 10 60 10]
    in_range_cases [of 180 10 5] in_range_cases [of 180 10 200] in_range_cases [of 180 10 70]
  by simp

text \<open>
  C10: for every identifier \<open>x\<close> and every target, \<open>in_range(target, x, x)\<close> is false: the
  interval whose start equals its end is empty, not the full circle.
\<close>

theorem in_range_degenerate: "\<not> in_range target x x"
  by (simp add: in_range_def)

section \<open>Properties of the decentralised lookup\<close>

lemma scan_fingers_Inr:
  "scan_fingers h s key n = Inr r \<Longrightarrow>
     (\<exists>i. 1 \<le> i \<and> i \<le> n \<and> finger_table (h s) i = Some (NodeRef r) \<and>
          in_range (identifier (h r)) (identifier (h s)) key) \<or>
     (r = s \<and> (\<forall>i f. 1 \<le> i \<and> i \<le> n \<and> finger_table (h s) i = Some (NodeRef f) \<longrightarrow>
          \<not> in_range (identifier (h f)) (identifier (h s)) key))"
proof (induction n)
  case 0
  then show ?case by simp
next
  case (Suc n)
  show ?case
  proof (cases "finger_table (h s) (Suc n)")
    case None
    with Suc.prems show ?thesis by simp
  next
    case (Some sl)
    show ?thesis
    proof (cases sl)
      case PyNone
      with Some Suc.prems have "scan_fingers h s key n = Inr r" by simp
      from Suc.IH [OF this] show ?thesis
      proof
        assume "\<exists>i. 1 \<le> i \<and> i \<le> n \<and> finger_table (h s) i = Some (NodeRef r) \<and>
          in_range (identifier (h r)) (identifier (h s)) key"
        then show ?thesis by (meson le_SucI)
      next
        assume a: "r = s \<and> (\<forall>i f. 1 \<le> i \<and> i \<le> n \<and> finger_table (h s) i = Some (NodeRef f) \<longrightarrow>
          \<not> in_range (identifier (h f)) (identifier (h s)) key)"
        have "\<not> in_range (identifier (h f)) (identifier (h s)) key"
          if "1 \<le> i" "i \<le> Suc n" "finger_table (h s) i = Some (NodeRef f)" for i f
        proof (cases "i = Suc n")
          case True
          with that Some PyNone show ?thesis by simp
        next
          case False
          with that have "i \<le> n" by simp
          with a that show ?thesis by blast
        qed
        with a show ?thesis by blast
      qed
    next
      case (NodeRef f)
      show ?thesis
      proof (cases "in_range (identifier (h f)) (identifier (h s)) key")
        case True
        with Some NodeRef Suc.prems have "r = f" by simp
        with True Some NodeRef show ?thesis by (intro disjI1 exI [of _ "Suc n"]) simp
      next
        case False
        with Some NodeRef Suc.prems have "scan_fingers h s key n = Inr r" by simp
        from Suc.IH [OF this] show ?thesis
        proof
          assume "\<exists>i. 1 \<le> i \<and> i \<le> n \<and> finger_table (h s) i = Some (NodeRef r) \<and>
            in_range (identifier (h r)) (identifier (h s)) key"
          then show ?thesis by (meson le_SucI)
        next
          assume a: "r = s \<and> (\<forall>i f. 1 \<le> i \<and> i \<le> n \<and> finger_table (h s) i = Some (NodeRef f) \<longrightarrow>
            \<not> in_range (identifier (h f)) (identifier (h s)) key)"
          have "\<not> in_range (identifier (h g)) (identifier (h s)) key"
            if "1 \<le> i" "i \<le> Suc n" "finger_table (h s) i = Some (NodeRef g)" for i g
          proof (cases "i = Suc n")
            case True
            with that Some NodeRef False show ?thesis by simp
          next
            case F: False
            with that have "i \<le> n" by simp
            with a that show ?thesis by blast
          qed
          with a show ?thesis by blast
        qed
      qed
    qed
  qed
qed

lemma scan_fingers_total:
  "(\<forall>i. 1 \<le> i \<and> i \<le> n \<longrightarrow> (\<exists>f. finger_table (h s) i = Some (NodeRef f))) \<Longrightarrow>
   \<exists>r. scan_fingers h s key n = Inr r"
proof (induction n)
  case 0
  then show ?case by simp
next
  case (Suc n)
  then obtain f where f: "finger_table (h s) (Suc n) = Some (NodeRef f)"
    by (metis le_refl le_add1 plus_1_eq_Suc)
  from Suc have "\<exists>r. scan_fingers h s key n = Inr r" by simp
  with f show ?case by simp
qed

lemma scan_fingers_missing:
  "1 \<le> i \<Longrightarrow> i \<le> n \<Longrightarrow> finger_table (h s) i = None \<Longrightarrow>
   (\<forall>j. i < j \<and> j \<le> n \<longrightarrow> finger_table (h s) j = Some PyNone \<or>
      (\<exists>f. finger_table (h s) j = Some (NodeRef f) \<and>
           \<not> in_range (identifier (h f)) (identifier (h s)) key)) \<Longrightarrow>
   scan_fingers h s key n = Inl (KeyError i)"
proof (induction n)
  case 0
  then show ?case by simp
next
  case (Suc n)
  show ?case
  proof (cases "i = Suc n")
    case True
    with Suc.prems show ?thesis by simp
  next
    case False
    with Suc.prems have le: "i \<le> n" and lt: "i < Suc n" by simp_all
    from Suc.prems have rest: "\<forall>j. i < j \<and> j \<le> n \<longrightarrow> finger_table (h s) j = Some PyNone \<or>
      (\<exists>f. finger_table (h s) j = Some (NodeRef f) \<and>
           \<not> in_range (identifier (h f)) (identifier (h s)) key)" by simp
    from Suc.IH [OF Suc.prems(1) le Suc.prems(3) rest]
    have IH: "scan_fingers h s key n = Inl (KeyError i)" .
    from Suc.prems(4) lt have "finger_table (h s) (Suc n) = Some PyNone \<or>
      (\<exists>f. finger_table (h s) (Suc n) = Some (NodeRef f) \<and>
           \<not> in_range (identifier (h f)) (identifier (h s)) key)" by simp
    with IH show ?thesis by auto
  qed
qed


lemma find_successor_self_loop:
  assumes "data (h s) key = None" "closest_preceding_node h s key = Inr s"
  shows "find_successor h s key = None"
proof (cases "find_successor h s key")
  case None
  then show ?thesis .
next
  case (Some r)
  have step: "\<not> (h' = h \<and> a = s \<and> k = key)"
    if IH: "\<And>h' a k y. fs h' a k = Some y \<Longrightarrow> \<not> (h' = h \<and> a = s \<and> k = key)"
      and body: "(if data (h' a) k \<noteq> None then Some (Inr a)
       else case closest_preceding_node h' a k of
              Inl e \<Rightarrow> Some (Inl e)
            | Inr successor \<Rightarrow> fs h' successor k) = Some y"
    for fs :: "heap \<Rightarrow> addr \<Rightarrow> int \<Rightarrow> (error + addr) option" and h' a k y
  proof
    assume eq: "h' = h \<and> a = s \<and> k = key"
    from body eq assms have "fs h s key = Some y" by simp
    from IH [OF this] show False by simp
  qed
  have "\<not> (h = h \<and> s = s \<and> key = key)"
    by (rule find_successor.raw_induct
          [where P = "\<lambda>h' a k y. \<not> (h' = h \<and> a = s \<and> k = key)", OF _ Some])
       (rule step)
  then show ?thesis by simp
qed

lemma single_heap_closest: "closest_preceding_node single_heap 0 70 = Inr 0"
  unfolding closest_preceding_node_def single_heap_def by code_simp

text \<open>
  C2 (the code at the failing input): on a ring of one node whose 160 fingers all refer to
  the node itself and whose \<open>data\<close> is empty, \<open>closest_preceding_node\<close> returns the node
  itself, \<open>find_successor\<close> calls itself on it with the same key, and the recursion never
  returns.
\<close>

theorem find_successor_diverges:
  "closest_preceding_node single_heap 0 70 = Inr 0 \<and> find_successor single_heap 0 70 = None"
proof -
  have "data (single_heap 0) 70 = None" by (simp add: single_heap_def)
  from find_successor_self_loop [OF this single_heap_closest] single_heap_closest
  show ?thesis by simp
qed

text \<open>
  C4 (as stated): with an unpopulated level, \<open>closest_preceding_node\<close> fails with an
  \<open>IncompleteFingerTable\<close> error and neither raises a missing-key fault nor skips the slot.
  On a freshly constructed node (empty finger table) the result is the \<open>KeyError\<close> of level
  160, and on a node whose slots all hold \<open>None\<close> every slot is skipped and the node itself
  is returned.
\<close>

theorem closest_preceding_node_unpopulated_counterexample:
  "finger_table (fresh_heap 0) 160 = None \<and>
   closest_preceding_node fresh_heap 0 7 = Inl (KeyError 160) \<and>
   finger_table (none_heap 0) 160 = Some PyNone \<and>
   closest_preceding_node none_heap 0 7 = Inr 0"
proof -
  have "closest_preceding_node fresh_heap 0 7 = Inl (KeyError 160)"
    unfolding closest_preceding_node_def fresh_heap_def Node_init_def by code_simp
  moreover have "closest_preceding_node none_heap 0 7 = Inr 0"
    unfolding closest_preceding_node_def none_heap_def by code_simp
  ultimately show ?thesis by (simp add: fresh_heap_def none_heap_def Node_init_def)
qed

text \<open>
  C4 (amended): for every node and key, if level \<open>i\<close> in \<open>1..160\<close> is not a key of the finger
  table and every level above \<open>i\<close> (up to 160) holds \<open>None\<close> or a finger that is not in range,
  then \<open>closest_preceding_node(key)\<close> raises the \<open>KeyError\<close> of level \<open>i\<close>; levels holding
  \<open>None\<close> are skipped as no match.
\<close>

theorem closest_preceding_node_missing_level:
  assumes "1 \<le> i" and "i \<le> 160" and "finger_table (h s) i = None"
    and "\<forall>j. i < j \<and> j \<le> 160 \<longrightarrow> finger_table (h s) j = Some PyNone \<or>
      (\<exists>f. finger_table (h s) j = Some (NodeRef f) \<and>
           \<not> in_range (identifier (h f)) (identifier (h s)) key)"
  shows "closest_preceding_node h s key = Inl (KeyError i)"
  unfolding closest_preceding_node_def
  using scan_fingers_missing [where i = i and n = 160 and h = h and s = s and key = key] assms
  by blast

theorem closest_preceding_node_missing_level_witness:
  "closest_preceding_node gap_heap 0 70 = Inl (KeyError 100)"
proof -
  have a: "(1::nat) \<le> 100" and b: "(100::nat) \<le> 160" by simp_all
  have c: "finger_table (gap_heap 0) 100 = None" by (simp add: gap_heap_def)
  have d: "\<forall>j. 100 < j \<and> j \<le> 160 \<longrightarrow> finger_table (gap_heap 0) j = Some PyNone \<or>
      (\<exists>f. finger_table (gap_heap 0) j = Some (NodeRef f) \<and>
           \<not> in_range (identifier (gap_heap f)) (identifier (gap_heap 0)) 70)"
    by (simp add: gap_heap_def in_range_def)
  from closest_preceding_node_missing_level
         [where i = 100 and h = gap_heap and s = 0 and key = 70] a b c d
  show ?thesis by blast
qed

text \<open>
  C7: for every node whose finger-table slots \<open>1..160\<close> all hold nodes and every key,
  \<open>closest_preceding_node(key)\<close> returns either a finger whose identifier satisfies
  \<open>in_range(finger.identifier, self.identifier, key)\<close>, or, when no finger qualifies, the
  node itself.
\<close>

theorem closest_preceding_node_result:
  assumes "\<forall>i. 1 \<le> i \<and> i \<le> 160 \<longrightarrow> (\<exists>f. finger_table (h s) i = Some (NodeRef f))"
  shows "\<exists>r. closest_preceding_node h s key = Inr r \<and>
     ((\<exists>i. 1 \<le> i \<and> i \<le> 160 \<and> finger_table (h s) i = Some (NodeRef r) \<and>
           in_range (identifier (h r)) (identifier (h s)) key) \<or>
      (r = s \<and> (\<forall>i f. 1 \<le> i \<and> i \<le> 160 \<and> finger_table (h s) i = Some (NodeRef f) \<longrightarrow>
           \<not> in_range (identifier (h f)) (identifier (h s)) key)))"
proof -
  from scan_fingers_total [where n = 160 and h = h and s = s and key = key] assms
  obtain r where r: "scan_fingers h s key 160 = Inr r"
    by blast
  from scan_fingers_Inr [OF r] r show ?thesis
    unfolding closest_preceding_node_def by blast
qed

theorem closest_preceding_node_result_witness:
  "closest_preceding_node ring3_heap 0 70 = Inr 1 \<and>
   finger_table (ring3_heap 0) 6 = Some (NodeRef 1) \<and>
   in_range (identifier (ring3_heap 1)) (identifier (ring3_heap 0)) 70 \<and>
   closest_preceding_node ring3_heap 0 10 = Inr 0"
proof -
  have pop: "\<forall>i. 1 \<le> i \<and> i \<le> 160 \<longrightarrow> (\<exists>f. finger_table (ring3_heap 0) i = Some (NodeRef f))"
    by (simp add: ring3_heap_def)
  have e1: "closest_preceding_node ring3_heap 0 70 = Inr 1"
    unfolding closest_preceding_node_def ring3_heap_def by code_simp
  have e2: "closest_preceding_node ring3_heap 0 10 = Inr 0"
    unfolding closest_preceding_node_def ring3_heap_def by code_simp
  from closest_preceding_node_result [where h = ring3_heap and s = 0 and key = 70] pop e1 e2
  show ?thesis
    by (simp add: ring3_heap_def in_range_def)
qed

section \<open>Properties of the ring\<close>




lemma nodes_add_nodes_snoc:
  "nodes (add_nodes h r (ns @ [n])) =
     sort_key (\<lambda>x. identifier (h x)) (nodes (add_nodes h r ns) @ [n])"
  by (simp add: add_nodes_def add_node_def)

lemma sorted_add_nodes:
  "sorted (map (\<lambda>n. identifier (h n)) (nodes (add_nodes h ChordRing_init ns)))"
proof (cases ns rule: rev_cases)
  case Nil
  then show ?thesis by (simp add: add_nodes_def ChordRing_init_def)
next
  case (snoc ms m)
  then show ?thesis by (simp only: nodes_add_nodes_snoc sorted_sort_key)
qed

lemma mset_add_nodes:
  "mset (nodes (add_nodes h ChordRing_init ns)) = mset ns"
proof (induction ns rule: rev_induct)
  case Nil
  then show ?case by (simp add: add_nodes_def ChordRing_init_def)
next
  case (snoc n ns)
  then show ?case by (simp add: nodes_add_nodes_snoc)
qed

lemma distinct_add_nodes:
  assumes "distinct (map (\<lambda>n. identifier (h n)) ns)"
  shows "distinct (map (\<lambda>n. identifier (h n)) (nodes (add_nodes h ChordRing_init ns)))"
proof -
  have "mset (map (\<lambda>n. identifier (h n)) (nodes (add_nodes h ChordRing_init ns))) =
        mset (map (\<lambda>n. identifier (h n)) ns)"
    by (simp add: mset_add_nodes)
  from mset_eq_imp_distinct_iff [OF this] assms show ?thesis by simp
qed

lemma encode_no_surrogate:
  "\<forall>c\<in>set key. \<not> is_surrogate c \<Longrightarrow> \<exists>bs. encode key = Inr bs"
  by (induction key) auto

lemma encode_surrogate:
  "\<exists>c\<in>set key. is_surrogate c \<Longrightarrow> encode key = Inl UnicodeEncodeError"
proof (induction key)
  case Nil
  then show ?case by simp
next
  case (Cons c cs)
  show ?case
  proof (cases "is_surrogate c")
    case True
    then show ?thesis by simp
  next
    case False
    with Cons.prems have "\<exists>c\<in>set cs. is_surrogate c" by simp
    from Cons.IH [OF this] False show ?thesis by simp
  qed
qed

lemma hash_key_no_surrogate:
  "\<forall>c\<in>set key. \<not> is_surrogate c \<Longrightarrow> \<exists>x. hash_key sha1 key = Inr x"
  using encode_no_surrogate [of key] by (auto simp: hash_key_def)

lemma hash_key_surrogate:
  "\<exists>c\<in>set key. is_surrogate c \<Longrightarrow> hash_key sha1 key = Inl UnicodeEncodeError"
  using encode_surrogate [of key] by (simp add: hash_key_def)




lemma ring3_nodes: "nodes (add_nodes ring3_heap ChordRing_init [2, 0, 1]) = [0, 1, 2]"
  by (simp add: add_nodes_def add_node_def ChordRing_init_def ring3_heap_def)




text \<open>
  C3 (as stated): on a ring with zero members \<open>find_node\<close> fails with an \<open>EmptyRing\<close> error
  and never with an arithmetic artifact. The code has no such error: for the key \<open>key1\<close> the
  modulo by \<open>len(self.nodes) = 0\<close> raises \<open>ZeroDivisionError\<close>.
\<close>

theorem find_node_empty_counterexample:
  "find_node echo_digest fresh_heap ChordRing_init (str_of ''key1'') = Inl ZeroDivisionError"
  by (simp add: find_node_def hash_key_def str_of_def is_surrogate_def ChordRing_init_def Let_def)

text \<open>
  C3 (amended): for every ring with zero members, \<open>find_node\<close> fails with \<open>ZeroDivisionError\<close>
  for every key without a surrogate code point, and with the \<open>UnicodeEncodeError\<close> of
  \<open>key.encode()\<close> for every key that holds one; it returns no node and raises no
  \<open>IndexError\<close>.
\<close>

theorem find_node_empty:
  assumes "nodes r = []"
  shows "find_node sha1 h r key =
     (if \<exists>c\<in>set key. is_surrogate c then Inl UnicodeEncodeError else Inl ZeroDivisionError)"
proof (cases "\<exists>c\<in>set key. is_surrogate c")
  case True
  from hash_key_surrogate [OF True] True show ?thesis by (simp add: find_node_def)
next
  case False
  then have "\<forall>c\<in>set key. \<not> is_surrogate c" by simp
  from hash_key_no_surrogate [OF this] obtain x where "hash_key sha1 key = Inr x" by blast
  with assms False show ?thesis by (simp add: find_node_def Let_def)
qed

theorem find_node_empty_witness:
  "nodes ChordRing_init = [] \<and>
   find_node echo_digest ring3_heap ChordRing_init (str_of ''F'') = Inl ZeroDivisionError \<and>
   find_node echo_digest ring3_heap ChordRing_init [0xD800] = Inl UnicodeEncodeError"
proof -
  have e: "nodes ChordRing_init = []" by (simp add: ChordRing_init_def)
  from find_node_empty [OF e, of echo_digest ring3_heap "str_of ''F''"]
    find_node_empty [OF e, of echo_digest ring3_heap "[0xD800]"] e
  show ?thesis by (simp add: str_of_def is_surrogate_def)
qed

text \<open>
  C8 (as stated): after every sequence of \<open>add_node\<close> calls the membership list is sorted and
  contains no two nodes with equal identifiers. Nothing is deduplicated: two nodes with the
  identifier 10 are both kept.
\<close>

theorem add_node_duplicates_counterexample:
  "nodes (add_nodes fresh_heap ChordRing_init [0, 1]) = [0, 1] \<and>
   identifier (fresh_heap 0) = identifier (fresh_heap 1) \<and>
   \<not> distinct (map (\<lambda>n. identifier (fresh_heap n)) (nodes (add_nodes fresh_heap ChordRing_init [0, 1])))"
  by (simp add: add_nodes_def add_node_def ChordRing_init_def fresh_heap_def Node_init_def)

text \<open>
  C8 (amended): after every sequence of \<open>add_node\<close> calls starting from a newly created empty
  ring, the membership list is sorted by identifier in ascending order and holds exactly the
  added nodes, each as often as it was added; it contains no two entries with equal
  identifiers when the added nodes have pairwise distinct identifiers.
\<close>

theorem add_node_sorted:
  "sorted (map (\<lambda>n. identifier (h n)) (nodes (add_nodes h ChordRing_init ns))) \<and>
   mset (nodes (add_nodes h ChordRing_init ns)) = mset ns \<and>
   (distinct (map (\<lambda>n. identifier (h n)) ns) \<longrightarrow>
    distinct (map (\<lambda>n. identifier (h n)) (nodes (add_nodes h ChordRing_init ns))))"
  using sorted_add_nodes mset_add_nodes distinct_add_nodes by blast

theorem add_node_sorted_witness:
  "distinct (map (\<lambda>n. identifier (ring3_heap n)) [2, 0, 1]) \<and>
   nodes (add_nodes ring3_heap ChordRing_init [2, 0, 1]) = [0, 1, 2] \<and>
   sorted (map (\<lambda>n. identifier (ring3_heap n)) (nodes (add_nodes ring3_heap ChordRing_init [2, 0, 1]))) \<and>
   distinct (map (\<lambda>n. identifier (ring3_heap n)) (nodes (add_nodes ring3_heap ChordRing_init [2, 0, 1])))"
proof -
  have d: "distinct (map (\<lambda>n. identifier (ring3_heap n)) [2, 0, 1])"
    by (simp add: ring3_heap_def)
  from add_node_sorted [of ring3_heap "[2, 0, 1]"] d ring3_nodes show ?thesis by simp
qed

end
